theory Spec2Isabelle
  imports Main "HOL-Library.Char_ord" "HOL-Library.List_Lexorder" "HOL-Library.Sublist"
    "HOL-Library.Multiset"
begin

section \<open>The item router of Refeed (packages/trpc/router/items.ts)\<close>

text \<open>
  The router reads a relational store through Prisma. The store is modelled by the
  relations the router's queries navigate: an item carries its own columns and its
  \<open>user_items\<close> rows (the per-user state), a feed carries its \<open>users\<close> rows (the
  subscriptions); \<open>item.feed\<close> and \<open>feed.items\<close> are found through \<open>feed_id\<close>.
  Identifiers are strings, ordered as character lists. A date is the number of
  milliseconds JavaScript's \<open>Number(date)\<close> gives.
\<close>

subsection \<open>Data model\<close>

record bookmark_folder =
  bf_user_id :: string
  folder :: string

record user_item =
  ui_user_id :: string
  ui_note :: "string option"
  marked_read :: bool
  in_read_later :: bool
  temp_added_time :: "int option"
  bookmark_folders :: "bookmark_folder list"
  marked_read_time :: "int option"

record user_feed =
  uf_user_id :: string
  date_added :: int
  pagination_start_timestamp :: int

record feed =
  f_id :: string
  f_title :: string
  logo_url :: "string option"
  users :: "user_feed list"

record item =
  item_id :: string
  title :: string
  website_content :: "string option"
  created_at :: int
  from_newsletter :: bool
  feed_id :: "string option"
  user_items :: "user_item list"

record store =
  items :: "item list"
  feeds :: "feed list"

text \<open>The relation \<open>item.feed\<close> (absent when the item has no feed) and \<open>feed.items\<close>.\<close>

definition feed_of :: "store \<Rightarrow> item \<Rightarrow> feed option" where
  "feed_of db it =
     (case feed_id it of
        None \<Rightarrow> None
      | Some f \<Rightarrow> find (\<lambda>fd. f_id fd = f) (feeds db))"

definition feed_items :: "store \<Rightarrow> feed \<Rightarrow> item list" where
  "feed_items db fd = filter (\<lambda>i. feed_id i = Some (f_id fd)) (items db)"

subsection \<open>The store query: Prisma's findMany\<close>

datatype SortOrder = asc | desc

record query =
  q_take :: int
  q_skip :: nat
  q_cursor :: "string option"
  q_orderBy :: "SortOrder option"
  q_include_user_items :: bool

text \<open>
  What a query returns for one item: the item's columns, the included feed with its
  \<open>users\<close> restricted to the requesting user (\<open>include.feed.select.users.where\<close>), and
  the item's \<open>user_items\<close> when the query includes them (\<open>None\<close> is JavaScript's
  \<open>undefined\<close>).
\<close>

record joined =
  j_item :: item
  j_feed :: "feed option"
  j_user_items :: "user_item list option"

text \<open>
  A query that pages (it has a take, a skip or a cursor) and gives no \<open>orderBy\<close> is
  ordered by id, ascending. Every query of this router has a take.
\<close>

definition orderRows :: "SortOrder option \<Rightarrow> item list \<Rightarrow> item list" where
  "orderRows ob rows =
     (case ob of
        None \<Rightarrow> sort_key item_id rows
      | Some asc \<Rightarrow> sort_key item_id rows
      | Some desc \<Rightarrow> rev (sort_key item_id rows))"

text \<open>
  A cursor names a row of the table; the result starts at that row's position in the
  ordering. A cursor that names no row gives the empty result.
\<close>

definition fromCursor :: "string option \<Rightarrow> item list \<Rightarrow> item list" where
  "fromCursor c rows =
     (case c of
        None \<Rightarrow> rows
      | Some cid \<Rightarrow> dropWhile (\<lambda>r. item_id r \<noteq> cid) rows)"

definition include_joined :: "store \<Rightarrow> string \<Rightarrow> bool \<Rightarrow> item \<Rightarrow> joined" where
  "include_joined db uid with_user_items it =
     \<lparr> j_item = it,
       j_feed = map_option (\<lambda>fd. fd\<lparr>users := filter (\<lambda>u. uf_user_id u = uid) (users fd)\<rparr>)
                  (feed_of db it),
       j_user_items = (if with_user_items then Some (user_items it) else None) \<rparr>"

text \<open>
  \<open>findMany\<close> orders the table, starts at the cursor, keeps the rows the \<open>where\<close>
  clause admits, skips, and takes. A negative \<open>take\<close> pages backwards: the same on the
  reversed ordering, the page reversed again.
\<close>

definition findMany :: "store \<Rightarrow> string \<Rightarrow> (item \<Rightarrow> bool) \<Rightarrow> query \<Rightarrow> joined list" where
  "findMany db uid wh q =
     (let ordered = orderRows (q_orderBy q) (items db);
          directed = (if q_take q < 0 then rev ordered else ordered);
          page = take (nat \<bar>q_take q\<bar>)
                   (drop (q_skip q) (filter wh (fromCursor (q_cursor q) directed)))
      in map (include_joined db uid (q_include_user_items q))
           (if q_take q < 0 then rev page else page))"

text \<open>
  A JavaScript number as the store sees it: an integer, or a number that is none (a
  fraction, an infinity). Prisma accepts a \<open>take\<close> that is a 64-bit integer and rejects
  any other number with a PrismaClientValidationError, before it reads the store.
\<close>

datatype number = Whole int | NotWhole

datatype error = ValidationError | PrismaClientValidationError | TypeError

definition takeInt :: "number \<Rightarrow> error + int" where
  "takeInt a =
     (case a of
        NotWhole \<Rightarrow> Inl PrismaClientValidationError
      | Whole n \<Rightarrow>
          (if - (2 ^ 63) \<le> n \<and> n < 2 ^ 63 then Inr n
           else Inl PrismaClientValidationError))"

subsection \<open>Helpers of the router that live in other files\<close>

text \<open>
  Modelled from the spec: \<open>getNextPrismaCursor\<close> (lib/getNextPrismaCursor). The spec:
  nextCursor is the id of the last item in the page when the page is exactly
  \<open>amount\<close> items long, or absent when the page is shorter. The first argument reads
  an element's \<open>id\<close>. An empty page has no last item and gives no cursor.
\<close>

definition getNextPrismaCursor :: "('a \<Rightarrow> string) \<Rightarrow> 'a list \<Rightarrow> int \<Rightarrow> string option" where
  "getNextPrismaCursor get_id page amount =
     (if page \<noteq> [] \<and> int (length page) = amount then Some (get_id (last page)) else None)"

text \<open>
  Modelled from the spec: \<open>transformItems\<close> (router/utils/transformItems), the spec's
  ItemProjector. It flattens a joined record into id, title, content, feed title, feed
  logo, read flag, saved-for-later flag, note, bookmark folder names, creation time and
  read time; the per-user relation is read as a singleton (its first element), and an
  absent state row gives the defaults unread and unsaved.
\<close>

record flat_item =
  fi_id :: string
  fi_title :: string
  fi_content :: "string option"
  fi_feed_title :: "string option"
  fi_logo_url :: "string option"
  fi_marked_read :: bool
  fi_in_read_later :: bool
  fi_note :: "string option"
  fi_bookmark_folders :: "string list"
  fi_created_at :: int
  fi_marked_read_time :: "int option"

definition first_user_item :: "joined \<Rightarrow> user_item option" where
  "first_user_item j =
     (case j_user_items j of
        None \<Rightarrow> None
      | Some [] \<Rightarrow> None
      | Some (ui # _) \<Rightarrow> Some ui)"

definition transformItem :: "joined \<Rightarrow> flat_item" where
  "transformItem j =
     \<lparr> fi_id = item_id (j_item j),
       fi_title = title (j_item j),
       fi_content = website_content (j_item j),
       fi_feed_title = map_option f_title (j_feed j),
       fi_logo_url = (case j_feed j of None \<Rightarrow> None | Some fd \<Rightarrow> logo_url fd),
       fi_marked_read = (case first_user_item j of None \<Rightarrow> False | Some ui \<Rightarrow> marked_read ui),
       fi_in_read_later =
         (case first_user_item j of None \<Rightarrow> False | Some ui \<Rightarrow> in_read_later ui),
       fi_note = (case first_user_item j of None \<Rightarrow> None | Some ui \<Rightarrow> ui_note ui),
       fi_bookmark_folders =
         (case first_user_item j of None \<Rightarrow> [] | Some ui \<Rightarrow> map folder (bookmark_folders ui)),
       fi_created_at = created_at (j_item j),
       fi_marked_read_time =
         (case first_user_item j of None \<Rightarrow> None | Some ui \<Rightarrow> marked_read_time ui) \<rparr>"

definition transformItems :: "joined list \<Rightarrow> flat_item list" where
  "transformItems js = map transformItem js"

text \<open>
  \<open>removeDuplicates\<close> (router/utils/removeDuplicates) and \<open>getFolderFeedIds\<close>
  (features/feed/getFolderFeedIds) are not in this file either, and the spec leaves the
  grouping rule of the first open. Both are parameters of the router: a suppressor
  takes the projected page, the user, the store and the flag the router passes; a
  folder resolver takes the folder (absent when the request has none), the user and
  the store, and is taken to return a list of feed ids.
\<close>

type_synonym suppressor = "flat_item list \<Rightarrow> string \<Rightarrow> store \<Rightarrow> bool \<Rightarrow> flat_item list"

type_synonym resolver = "string option \<Rightarrow> string \<Rightarrow> store \<Rightarrow> string list"

subsection \<open>The input schema of getUnreadItems\<close>

datatype Sort =
  Latest | Oldest | Readability_Ascending | Readability_Descending
  | Content_Length_Ascending | Content_Length_Descending

datatype ViewType =
  Type_all | Type_one | Type_recentlyread | Type_bookmarks | Type_multiple
  | Type_discover | Type_newsletters

text \<open>
  A field of the request as it arrives: absent, a string, an integral number, a number
  that is no integer, or any other value (null, a boolean, NaN, an array, an object).
\<close>

datatype raw = Missing | Text string | Num int | NonIntegral | Other

record raw_input =
  r_amount :: raw
  r_sort :: raw
  r_type :: raw
  r_folder :: raw
  r_feed_id :: raw
  r_cursor :: raw







text \<open>The input of the handler once the amount is an integer the store takes.\<close>

record input =
  i_amount :: int
  i_sort :: Sort
  i_type :: ViewType
  i_folder :: "string option"
  i_feed_id :: "string option"
  i_cursor :: "string option"


subsection \<open>getUnreadItems: the shared query and the where clause of each view\<close>

definition sharedQuery :: "input \<Rightarrow> query" where
  "sharedQuery inp =
     \<lparr> q_take = i_amount inp,
       q_skip = (if i_cursor inp = None then 0 else 1),
       q_cursor = i_cursor inp,
       q_orderBy =
         (if i_type inp \<noteq> Type_recentlyread
          then (if i_sort inp = Latest then Some desc
                else if i_sort inp = Oldest then Some asc
                else None)
          else Some desc),
       q_include_user_items =
         (i_type inp = Type_recentlyread \<or> i_type inp = Type_bookmarks
          \<or> i_type inp = Type_newsletters) \<rparr>"

text \<open>
  Prisma's relation filters: \<open>some\<close> is \<open>list_ex\<close>, \<open>every\<close> is \<open>list_all\<close> (true of
  an item with no rows), \<open>none\<close> is the negation of \<open>some\<close>; a filter on the to-one
  relation \<open>feed\<close> fails for an item with no feed; a filter whose value is
  \<open>undefined\<close> is no filter.
\<close>

definition whereBookmarks :: "string \<Rightarrow> item \<Rightarrow> bool" where
  "whereBookmarks uid it =
     (list_ex (\<lambda>ui. in_read_later ui \<or> list_ex (\<lambda>bf. bf_user_id bf = uid) (bookmark_folders ui))
        (user_items it)
      \<and> list_all (\<lambda>ui. ui_user_id ui = uid) (user_items it))"

definition gte :: "int \<Rightarrow> int option \<Rightarrow> bool" where
  "gte bound v = (case v of None \<Rightarrow> False | Some t \<Rightarrow> bound \<le> t)"

definition whereRecentlyread :: "int \<Rightarrow> string \<Rightarrow> item \<Rightarrow> bool" where
  "whereRecentlyread thirtyDaysAgo uid it =
     (list_ex (\<lambda>ui. marked_read ui \<and> gte thirtyDaysAgo (marked_read_time ui)) (user_items it)
      \<and> list_all (\<lambda>ui. ui_user_id ui = uid) (user_items it))"

definition feedItemsEveryRecent :: "store \<Rightarrow> int \<Rightarrow> item \<Rightarrow> bool" where
  "feedItemsEveryRecent db thirtyDaysAgo it =
     (case feed_of db it of
        None \<Rightarrow> False
      | Some fd \<Rightarrow> list_all (\<lambda>i. thirtyDaysAgo \<le> created_at i) (feed_items db fd))"

definition feedUsersSome :: "store \<Rightarrow> string \<Rightarrow> item \<Rightarrow> bool" where
  "feedUsersSome db uid it =
     (case feed_of db it of
        None \<Rightarrow> False
      | Some fd \<Rightarrow> list_ex (\<lambda>u. uf_user_id u = uid) (users fd))"

definition userItemsNoneRead :: "string \<Rightarrow> item \<Rightarrow> bool" where
  "userItemsNoneRead uid it =
     (\<not> list_ex (\<lambda>ui. marked_read ui \<and> ui_user_id ui = uid) (user_items it))"

definition feedIdEquals :: "string option \<Rightarrow> item \<Rightarrow> bool" where
  "feedIdEquals wanted it =
     (case wanted of None \<Rightarrow> True | Some f \<Rightarrow> feed_id it = Some f)"

definition feedIdIn :: "string list \<Rightarrow> item \<Rightarrow> bool" where
  "feedIdIn fs it = (case feed_id it of None \<Rightarrow> False | Some f \<Rightarrow> f \<in> set fs)"

definition whereDiscover :: "store \<Rightarrow> int \<Rightarrow> string \<Rightarrow> string option \<Rightarrow> item \<Rightarrow> bool" where
  "whereDiscover db thirtyDaysAgo uid wanted it =
     (feedIdEquals wanted it \<and> feedItemsEveryRecent db thirtyDaysAgo it
      \<and> userItemsNoneRead uid it)"

definition whereAll :: "store \<Rightarrow> int \<Rightarrow> string \<Rightarrow> item \<Rightarrow> bool" where
  "whereAll db thirtyDaysAgo uid it =
     (feedUsersSome db uid it \<and> feedItemsEveryRecent db thirtyDaysAgo it
      \<and> userItemsNoneRead uid it)"

definition whereOneMultiple ::
  "resolver \<Rightarrow> store \<Rightarrow> int \<Rightarrow> string \<Rightarrow> input \<Rightarrow> item \<Rightarrow> bool" where
  "whereOneMultiple getFolderFeedIds db thirtyDaysAgo uid inp it =
     (feedUsersSome db uid it \<and> feedItemsEveryRecent db thirtyDaysAgo it
      \<and> (if i_type inp = Type_multiple
          then feedIdIn (getFolderFeedIds (i_folder inp) uid db) it
          else if i_type inp = Type_one then feedIdEquals (i_feed_id inp) it
          else True)
      \<and> userItemsNoneRead uid it)"

definition whereNewsletters :: "item \<Rightarrow> bool" where
  "whereNewsletters it = from_newsletter it"

subsection \<open>The in-memory steps of getUnreadItems\<close>

text \<open>
  \<open>Number(x.user_items[0]?.marked_read_time)\<close>: a date gives its milliseconds,
  \<open>null\<close> gives 0, and \<open>undefined\<close> (no first row) gives NaN, here \<open>None\<close>.
\<close>

definition readTimeNumber :: "joined \<Rightarrow> int option" where
  "readTimeNumber j =
     (case first_user_item j of
        None \<Rightarrow> None
      | Some ui \<Rightarrow> (case marked_read_time ui of None \<Rightarrow> Some 0 | Some t \<Rightarrow> Some t))"

text \<open>The subtraction of two such numbers; a NaN result counts as 0 in a comparator.\<close>

definition minus_Number :: "int option \<Rightarrow> int option \<Rightarrow> int" where
  "minus_Number a b =
     (case a of
        None \<Rightarrow> 0
      | Some x \<Rightarrow> (case b of None \<Rightarrow> 0 | Some y \<Rightarrow> x - y))"

definition compareLatest :: "joined \<Rightarrow> joined \<Rightarrow> int" where
  "compareLatest objA objB = minus_Number (readTimeNumber objB) (readTimeNumber objA)"

definition compareOldest :: "joined \<Rightarrow> joined \<Rightarrow> int" where
  "compareOldest objA objB = minus_Number (readTimeNumber objA) (readTimeNumber objB)"

text \<open>
  \<open>Array.prototype.sort\<close> with a comparator is a stable sort: an element moves behind
  another only when the comparator is positive. Stable insertion gives the one result
  every stable sort gives when the comparator is a consistent order.
\<close>

fun insertBy :: "('a \<Rightarrow> 'a \<Rightarrow> int) \<Rightarrow> 'a \<Rightarrow> 'a list \<Rightarrow> 'a list" where
  "insertBy cmp x [] = [x]"
| "insertBy cmp x (y # ys) = (if 0 < cmp x y then y # insertBy cmp x ys else x # y # ys)"

definition array_sort :: "('a \<Rightarrow> 'a \<Rightarrow> int) \<Rightarrow> 'a list \<Rightarrow> 'a list" where
  "array_sort cmp xs = foldr (insertBy cmp) xs []"

definition sortRecentlyRead :: "Sort \<Rightarrow> joined list \<Rightarrow> joined list" where
  "sortRecentlyRead s js =
     (let js1 = (if s = Latest then array_sort compareLatest js else js)
      in if s = Oldest then array_sort compareOldest js1 else js1)"

text \<open>
  The filter of the all view: \<open>item.feed?.users[0]?.pagination_start_timestamp\<close>
  is compared with \<open>item.created_at\<close>; a comparison with \<open>undefined\<close> is false.
\<close>

definition afterPaginationStart :: "joined \<Rightarrow> bool" where
  "afterPaginationStart j =
     (case j_feed j of
        None \<Rightarrow> False
      | Some fd \<Rightarrow>
          (case users fd of
             [] \<Rightarrow> False
           | u # _ \<Rightarrow> pagination_start_timestamp u \<le> created_at (j_item j)))"

subsection \<open>getUnreadItems\<close>

record response =
  transformedItems :: "flat_item list"
  nextCursor :: "string option"

text \<open>
  The handler, one branch per view type as in the source. \<open>thirtyDaysAgo\<close> is the clock
  reading moved back thirty days; \<open>uid\<close> is \<open>ctx.user.id\<close> (the procedure is protected, so
  a user is present) and \<open>db\<close> is \<open>ctx.prisma\<close>.
\<close>

definition getUnreadItemsQuery ::
  "suppressor \<Rightarrow> resolver \<Rightarrow> int \<Rightarrow> string \<Rightarrow> store \<Rightarrow> input \<Rightarrow> response" where
  "getUnreadItemsQuery removeDuplicates getFolderFeedIds thirtyDaysAgo uid db inp =
     (case i_type inp of
        Type_bookmarks \<Rightarrow>
          (let found = findMany db uid (whereBookmarks uid) (sharedQuery inp);
               cur = getNextPrismaCursor (\<lambda>j. item_id (j_item j)) found (i_amount inp)
           in \<lparr> transformedItems = transformItems found, nextCursor = cur \<rparr>)
      | Type_recentlyread \<Rightarrow>
          (let found = findMany db uid (whereRecentlyread thirtyDaysAgo uid) (sharedQuery inp);
               sorted_items = sortRecentlyRead (i_sort inp) found;
               projected = transformItems sorted_items;
               cur = getNextPrismaCursor fi_id projected (i_amount inp)
           in \<lparr> transformedItems = removeDuplicates projected uid db False,
                 nextCursor = cur \<rparr>)
      | Type_discover \<Rightarrow>
          (let found = findMany db uid (whereDiscover db thirtyDaysAgo uid (i_feed_id inp))
                         (sharedQuery inp);
               projected = transformItems found;
               cur = getNextPrismaCursor fi_id projected (i_amount inp)
           in \<lparr> transformedItems = removeDuplicates projected uid db False,
                 nextCursor = cur \<rparr>)
      | Type_all \<Rightarrow>
          (let found = findMany db uid (whereAll db thirtyDaysAgo uid) (sharedQuery inp);
               itemsAfterDate = filter afterPaginationStart found;
               projected = transformItems itemsAfterDate;
               cur = getNextPrismaCursor fi_id projected (i_amount inp)
           in \<lparr> transformedItems = removeDuplicates projected uid db True,
                 nextCursor = cur \<rparr>)
      | Type_newsletters \<Rightarrow>
          (let found = findMany db uid whereNewsletters (sharedQuery inp);
               projected = transformItems found;
               cur = getNextPrismaCursor fi_id projected (i_amount inp)
           in \<lparr> transformedItems = projected, nextCursor = cur \<rparr>)
      | _ \<Rightarrow>
          (let found = findMany db uid
                         (whereOneMultiple getFolderFeedIds db thirtyDaysAgo uid inp)
                         (sharedQuery inp);
               projected = transformItems found;
               cur = getNextPrismaCursor fi_id projected (i_amount inp)
           in \<lparr> transformedItems = removeDuplicates projected uid db True,
                 nextCursor = cur \<rparr>))"


text \<open>A suppressor that removes nothing, for running the router on concrete stores.\<close>

definition keepAll :: suppressor where
  "keepAll page uid db flag = page"

text \<open>
  Paging through a view as a client does: request a page, feed its \<open>nextCursor\<close> back,
  stop when a page has none. The fuel bounds the number of requests.
\<close>

fun pages ::
  "nat \<Rightarrow> suppressor \<Rightarrow> resolver \<Rightarrow> int \<Rightarrow> string \<Rightarrow> store \<Rightarrow> input \<Rightarrow> response list" where
  "pages 0 rd gf t uid db inp = []"
| "pages (Suc n) rd gf t uid db inp =
     (let r = getUnreadItemsQuery rd gf t uid db inp
      in case nextCursor r of
           None \<Rightarrow> [r]
         | Some c \<Rightarrow> r # pages n rd gf t uid db (inp\<lparr>i_cursor := Some c\<rparr>))"

subsection \<open>searchMultipleItems\<close>

datatype Plan = free | pro

text \<open>The request after its schema; \<open>take\<close> holds the integral numbers.\<close>

record search_input =
  s_query :: "string option"
  s_plan :: Plan
  s_take :: int

record search_item =
  s_item :: item
  feed_title :: string

definition toLower :: "char \<Rightarrow> char" where
  "toLower c =
     (if CHR ''A'' \<le> c \<and> c \<le> CHR ''Z'' then char_of (of_char c + (32::nat)) else c)"

text \<open>
  The store's LIKE: in a pattern, \<open>%\<close> stands for any run of characters, \<open>_\<close> for any
  one character, and a backslash makes the character after it stand for itself. A
  pattern that ends in a lone backslash is an error of the store; the patterns below
  end in \<open>%\<close>, so none does, and the case is \<open>False\<close> here.
\<close>

fun like :: "string \<Rightarrow> string \<Rightarrow> bool" where
  "like [] [] = True"
| "like [] (c # s) = False"
| "like (p # ps) [] = (p = CHR ''%'' \<and> like ps [])"
| "like (p # ps) (c # s) =
     (if p = CHR ''%'' then like ps (c # s) \<or> like (p # ps) s
      else if p = CHR ''_'' then like ps s
      else if p = CHR 0x5C then (case ps of [] \<Rightarrow> False | e # rest \<Rightarrow> e = c \<and> like rest s)
      else p = c \<and> like ps s)"

text \<open>
  The string filter \<open>{contains: q, mode: "insensitive"}\<close> on a column value: an
  \<open>undefined\<close> query is no filter; a null column matches no query; otherwise the value
  is matched against the pattern \<open>%q%\<close>, the query put in as it is written, so that
  its \<open>%\<close>, \<open>_\<close> and backslashes are pattern characters. Case is folded on the ASCII
  letters.
\<close>

definition containsInsensitive :: "string option \<Rightarrow> string option \<Rightarrow> bool" where
  "containsInsensitive q v =
     (case q of
        None \<Rightarrow> True
      | Some needle \<Rightarrow>
          (case v of
             None \<Rightarrow> False
           | Some s \<Rightarrow>
               like (map toLower (CHR ''%'' # needle @ [CHR ''%''])) (map toLower s)))"

definition whereSearch :: "store \<Rightarrow> string \<Rightarrow> search_input \<Rightarrow> item \<Rightarrow> bool" where
  "whereSearch db uid inp it =
     (containsInsensitive (s_query inp) (Some (title it))
      \<and> (if s_plan inp = free then True
          else containsInsensitive (s_query inp) (website_content it))
      \<and> feedUsersSome db uid it)"

text \<open>
  The loop over the found items: the content becomes markdown (\<open>translate\<close> stands
  for NodeHtmlMarkdown.translate) and the feed's title is copied into the item;
  reading the title of an absent feed is a TypeError.
\<close>

fun toMarkdown :: "(string \<Rightarrow> string) \<Rightarrow> joined list \<Rightarrow> error + search_item list" where
  "toMarkdown translate [] = Inr []"
| "toMarkdown translate (j # js) =
     (case j_feed j of
        None \<Rightarrow> Inl TypeError
      | Some fd \<Rightarrow>
          (case toMarkdown translate js of
             Inl e \<Rightarrow> Inl e
           | Inr rest \<Rightarrow>
               Inr (\<lparr> s_item = (j_item j)\<lparr>website_content :=
                                Some (translate (case website_content (j_item j) of
                                                   None \<Rightarrow> [] | Some c \<Rightarrow> c))\<rparr>,
                       feed_title = f_title fd \<rparr> # rest)))"

definition searchMultipleItems ::
  "(string \<Rightarrow> string) \<Rightarrow> string \<Rightarrow> store \<Rightarrow> search_input \<Rightarrow> error + search_item list" where
  "searchMultipleItems translate uid db inp =
     (case takeInt (Whole (s_take inp)) of
        Inl e \<Rightarrow> Inl e
      | Inr n \<Rightarrow>
          toMarkdown translate
            (findMany db uid (whereSearch db uid inp)
               \<lparr> q_take = n, q_skip = 0, q_cursor = None, q_orderBy = None,
                 q_include_user_items = False \<rparr>))"

subsection \<open>Concrete stores and requests\<close>

definition state_row ::
  "string \<Rightarrow> bool \<Rightarrow> bool \<Rightarrow> int option \<Rightarrow> bookmark_folder list \<Rightarrow> user_item" where
  "state_row uid was_read later t bfs =
     \<lparr> ui_user_id = uid, ui_note = None, marked_read = was_read, in_read_later = later,
       temp_added_time = None, bookmark_folders = bfs, marked_read_time = t \<rparr>"

definition item_row ::
  "string \<Rightarrow> string \<Rightarrow> string option \<Rightarrow> int \<Rightarrow> string option \<Rightarrow> user_item list \<Rightarrow> item" where
  "item_row i ttl body created f rows =
     \<lparr> item_id = i, title = ttl, website_content = body, created_at = created,
       from_newsletter = False, feed_id = f, user_items = rows \<rparr>"

definition feed_row :: "string \<Rightarrow> string \<Rightarrow> user_feed list \<Rightarrow> feed" where
  "feed_row f ttl subs = \<lparr> f_id = f, f_title = ttl, logo_url = None, users = subs \<rparr>"

definition subscription :: "string \<Rightarrow> int \<Rightarrow> user_feed" where
  "subscription uid start =
     \<lparr> uf_user_id = uid, date_added = start, pagination_start_timestamp = start \<rparr>"

definition request :: "int \<Rightarrow> Sort \<Rightarrow> ViewType \<Rightarrow> string option \<Rightarrow> input" where
  "request n s t c =
     \<lparr> i_amount = n, i_sort = s, i_type = t, i_folder = None, i_feed_id = None,
       i_cursor = c \<rparr>"

definition raw_request :: "int \<Rightarrow> string \<Rightarrow> string \<Rightarrow> raw_input" where
  "raw_request n s t =
     \<lparr> r_amount = Num n, r_sort = Text s, r_type = Text t, r_folder = Missing,
       r_feed_id = Missing, r_cursor = Missing \<rparr>"

definition noFolders :: resolver where
  "noFolders f uid db = []"

text \<open>A suppressor that keeps the earliest item of each title.\<close>

fun firstPerTitle :: "flat_item list \<Rightarrow> flat_item list" where
  "firstPerTitle [] = []"
| "firstPerTitle (x # xs) = x # firstPerTitle (filter (\<lambda>y. fi_title y \<noteq> fi_title x) xs)"

definition suppressByTitle :: suppressor where
  "suppressByTitle page uid db flag = firstPerTitle page"

text \<open>Three items read by u1; the read times do not follow the ids.\<close>

definition read_store :: store where
  "read_store =
     \<lparr> items =
         [item_row ''1'' ''a'' None 10 (Some ''f1'') [state_row ''u1'' True False (Some 700) []],
          item_row ''2'' ''b'' None 20 (Some ''f1'') [state_row ''u1'' True False (Some 900) []],
          item_row ''3'' ''c'' None 30 (Some ''f1'') [state_row ''u1'' True False (Some 500) []]],
       feeds = [feed_row ''f1'' ''Feed'' [subscription ''u1'' 0]] \<rparr>"

text \<open>The spec's scenario: D (id 2) was read at 3, E (id 1) at 1.\<close>

definition scenario_store :: store where
  "scenario_store =
     \<lparr> items =
         [item_row ''1'' ''E'' None 10 (Some ''f1'') [state_row ''u1'' True False (Some 1) []],
          item_row ''2'' ''D'' None 20 (Some ''f1'') [state_row ''u1'' True False (Some 3) []]],
       feeds = [feed_row ''f1'' ''Feed'' [subscription ''u1'' 0]] \<rparr>"

text \<open>
  One feed that u1 subscribed to at time 100; item 4, the newest by id, was created
  before that.
\<close>

definition window_store :: store where
  "window_store =
     \<lparr> items =
         [item_row ''1'' ''a'' None 400 (Some ''f1'') [],
          item_row ''2'' ''b'' None 300 (Some ''f1'') [],
          item_row ''3'' ''c'' None 200 (Some ''f1'') [],
          item_row ''4'' ''d'' None 50 (Some ''f1'') []],
       feeds = [feed_row ''f1'' ''Feed'' [subscription ''u1'' 100]] \<rparr>"

text \<open>
  Bookmarks: item 1 is saved for later by u1; item 2 is not, but sits in a bookmark
  folder of u1, and has the title of item 1; item 3 is saved by u1 and also has a state
  row of u2; item 4 is saved by u2 only; item 5 has no state.
\<close>

definition bookmark_store :: store where
  "bookmark_store =
     \<lparr> items =
         [item_row ''1'' ''Same'' None 10 (Some ''f1'') [state_row ''u1'' False True None []],
          item_row ''2'' ''Same'' None 20 (Some ''f1'')
            [state_row ''u1'' False False None [\<lparr> bf_user_id = ''u1'', folder = ''later'' \<rparr>]],
          item_row ''3'' ''c'' None 30 (Some ''f1'')
            [state_row ''u1'' False True None [], state_row ''u2'' False False None []],
          item_row ''4'' ''d'' None 40 (Some ''f1'') [state_row ''u2'' False True None []],
          item_row ''5'' ''e'' None 50 (Some ''f1'') []],
       feeds = [feed_row ''f1'' ''Feed'' [subscription ''u1'' 0]] \<rparr>"

text \<open>
  Search: u1 subscribes to f1 and f2, u2 to f3. Item 2 has the word rust in its body
  only, item 3 is in a feed of u2, item 4 has no body. The rows are not stored in the
  order of their ids.
\<close>

definition library_feeds :: "feed list" where
  "library_feeds =
     [feed_row ''f1'' ''One'' [subscription ''u1'' 0],
      feed_row ''f2'' ''Two'' [subscription ''u1'' 0],
      feed_row ''f3'' ''Three'' [subscription ''u2'' 0]]"

definition library_store :: store where
  "library_store =
     \<lparr> items =
         [item_row ''2'' ''Weekly'' (Some ''some Rust inside'') 20 (Some ''f2'') [],
          item_row ''1'' ''Rust News'' (Some ''all about rust'') 10 (Some ''f1'') [],
          item_row ''4'' ''the RUST book'' None 40 (Some ''f1'') [],
          item_row ''3'' ''Rusty'' (Some ''rust'') 30 (Some ''f3'') []],
       feeds = library_feeds \<rparr>"

text \<open>The same store with other bodies.\<close>

definition library_store_rewritten :: store where
  "library_store_rewritten =
     \<lparr> items =
         [item_row ''2'' ''Weekly'' (Some ''nothing'') 20 (Some ''f2'') [],
          item_row ''1'' ''Rust News'' None 10 (Some ''f1'') [],
          item_row ''4'' ''the RUST book'' (Some ''rust rust'') 40 (Some ''f1'') [],
          item_row ''3'' ''Rusty'' (Some ''rust'') 30 (Some ''f3'') []],
       feeds = library_feeds \<rparr>"

definition search_request :: "string option \<Rightarrow> Plan \<Rightarrow> int \<Rightarrow> search_input" where
  "search_request q p n = \<lparr> s_query = q, s_plan = p, s_take = n \<rparr>"

text \<open>The bookmarks page of u1 over that store.\<close>

definition bookmark_page :: "flat_item list" where
  "bookmark_page =
     transformedItems (getUnreadItemsQuery keepAll noFolders 0 ''u1'' bookmark_store
       (request 10 Latest Type_bookmarks None))"

subsection \<open>Orders and shorthands used in the statements\<close>

text \<open>Descending by id: the order of a fetch with \<open>orderBy: {id: desc}\<close>.\<close>

definition byIdDesc :: "item \<Rightarrow> item \<Rightarrow> bool" where
  "byIdDesc a b = (item_id b \<le> item_id a)"

text \<open>The read time of a projected item as a number (\<open>Number(null)\<close> is 0).\<close>

definition readTime :: "flat_item \<Rightarrow> int" where
  "readTime fi = (case fi_marked_read_time fi of None \<Rightarrow> 0 | Some t \<Rightarrow> t)"

text \<open>
  A page in the read order a sort asks for: newest read first for Latest, oldest read
  first for Oldest; the other sorts ask for none.
\<close>

definition inReadOrder :: "Sort \<Rightarrow> flat_item list \<Rightarrow> bool" where
  "inReadOrder s page =
     (if s = Latest then sorted_wrt (\<lambda>a b. readTime b \<le> readTime a) page
      else if s = Oldest then sorted_wrt (\<lambda>a b. readTime a \<le> readTime b) page
      else True)"


text \<open>The first page of the all view of u1 over the window store, two items a page.\<close>

definition window_page :: "flat_item list" where
  "window_page =
     transformedItems (getUnreadItemsQuery keepAll noFolders 0 ''u1'' window_store
       (request 2 Latest Type_all None))"

text \<open>
  For the search: an item with its body erased, two stores that differ in bodies only,
  the rows a query with nothing but a where clause and a take returns, and what the loop
  of searchMultipleItems makes of a found item.
\<close>

definition withoutContent :: "item \<Rightarrow> item" where
  "withoutContent it = it\<lparr>website_content := None\<rparr>"

definition sameButContent :: "store \<Rightarrow> store \<Rightarrow> bool" where
  "sameButContent a b =
     (map withoutContent (items a) = map withoutContent (items b) \<and> feeds a = feeds b)"

definition plainRows :: "int \<Rightarrow> (item \<Rightarrow> bool) \<Rightarrow> item list \<Rightarrow> item list" where
  "plainRows n wh rows =
     (if n < 0 then rev (take (nat \<bar>n\<bar>) (filter wh (rev rows)))
      else take (nat \<bar>n\<bar>) (filter wh rows))"

definition toResult :: "(string \<Rightarrow> string) \<Rightarrow> store \<Rightarrow> item \<Rightarrow> search_item" where
  "toResult translate db it =
     \<lparr> s_item = it\<lparr>website_content :=
                  Some (translate (case website_content it of None \<Rightarrow> [] | Some c \<Rightarrow> c))\<rparr>,
       feed_title = (case feed_of db it of None \<Rightarrow> [] | Some fd \<Rightarrow> f_title fd) \<rparr>"

text \<open>A query with none of the store's pattern characters.\<close>

definition plainQuery :: "string \<Rightarrow> bool" where
  "plainQuery q = list_all (\<lambda>c. c \<noteq> CHR ''%'' \<and> c \<noteq> CHR ''_'' \<and> c \<noteq> CHR 0x5C) q"


lemmas store_defs =
  state_row_def item_row_def feed_row_def subscription_def request_def raw_request_def
  noFolders_def read_store_def scenario_store_def window_store_def bookmark_store_def
  library_feeds_def library_store_def library_store_rewritten_def search_request_def

section \<open>Properties of the store query\<close>

lemma set_orderRows: "set (orderRows ob rows) = set rows"
  by (simp add: orderRows_def split: option.splits SortOrder.splits)

lemma set_fromCursor: "set (fromCursor c rows) \<subseteq> set rows"
  by (auto simp: fromCursor_def split: option.splits dest: set_dropWhileD)

text \<open>Every row a query returns is a row of the table that its where clause admits.\<close>

lemma findMany_rows:
  assumes "j \<in> set (findMany db uid wh q)"
  shows "\<exists>it \<in> set (items db). wh it \<and> j = include_joined db uid (q_include_user_items q) it"
proof -
  let ?directed = "if q_take q < 0 then rev (orderRows (q_orderBy q) (items db))
                   else orderRows (q_orderBy q) (items db)"
  let ?page = "take (nat \<bar>q_take q\<bar>) (drop (q_skip q) (filter wh (fromCursor (q_cursor q) ?directed)))"
  from assms obtain it where it: "it \<in> set ?page"
    and j: "j = include_joined db uid (q_include_user_items q) it"
    by (auto simp: findMany_def Let_def split: if_splits)
  have directed: "set ?directed = set (items db)"
    by (simp add: set_orderRows)
  from it have "it \<in> set (filter wh (fromCursor (q_cursor q) ?directed))"
    by (blast dest: in_set_takeD in_set_dropD)
  then have "wh it" and "it \<in> set (fromCursor (q_cursor q) ?directed)"
    by simp_all
  then have "it \<in> set (items db)"
    using set_fromCursor [of "q_cursor q" ?directed] directed by blast
  with \<open>wh it\<close> j show ?thesis by blast
qed

lemma transformItem_id: "fi_id (transformItem j) = item_id (j_item j)"
  by (simp add: transformItem_def)

lemma include_joined_item: "j_item (include_joined db uid b it) = it"
  by (simp add: include_joined_def)

section \<open>The bookmarks view\<close>

lemma bookmarks_page:
  "i_type inp = Type_bookmarks \<Longrightarrow>
   transformedItems (getUnreadItemsQuery rd gf t uid db inp) =
     transformItems (findMany db uid (whereBookmarks uid) (sharedQuery inp))"
  by (simp add: getUnreadItemsQuery_def Let_def)

lemma sharedQuery_include_bookmarks:
  "i_type inp = Type_bookmarks \<Longrightarrow> q_include_user_items (sharedQuery inp) = True"
  by (simp add: sharedQuery_def)

text \<open>
  C7. In the bookmarks view every returned item is the projection of a stored item that
  has a state row of the requesting user with saved-for-later set or with a bookmark
  folder link of that user, and all of whose state rows belong to the requesting user:
  no item is returned on the basis of another user's state.
\<close>

theorem bookmarks_own_state:
  assumes "i_type inp = Type_bookmarks"
    and "fi \<in> set (transformedItems (getUnreadItemsQuery rd gf t uid db inp))"
  shows "\<exists>it \<in> set (items db).
           fi = transformItem (include_joined db uid True it)
           \<and> (\<exists>ui \<in> set (user_items it).
                 ui_user_id ui = uid
                 \<and> (in_read_later ui \<or> (\<exists>bf \<in> set (bookmark_folders ui). bf_user_id bf = uid)))
           \<and> (\<forall>ui \<in> set (user_items it). ui_user_id ui = uid)"
proof -
  from assms obtain j where j: "j \<in> set (findMany db uid (whereBookmarks uid) (sharedQuery inp))"
    and fi: "fi = transformItem j"
    by (auto simp: bookmarks_page transformItems_def)
  from findMany_rows [OF j] assms(1) obtain it where it: "it \<in> set (items db)"
    and wh: "whereBookmarks uid it" and jj: "j = include_joined db uid True it"
    by (auto simp: sharedQuery_include_bookmarks)
  from wh have every: "\<forall>ui \<in> set (user_items it). ui_user_id ui = uid"
    by (simp add: whereBookmarks_def list_all_iff)
  from wh obtain ui where ui: "ui \<in> set (user_items it)"
    and saved: "in_read_later ui \<or> (\<exists>bf \<in> set (bookmark_folders ui). bf_user_id bf = uid)"
    by (auto simp: whereBookmarks_def list_ex_iff)
  from every ui have "ui_user_id ui = uid" by blast
  with it fi jj every ui saved show ?thesis by blast
qed

theorem bookmarks_own_state_witness:
  "map fi_id bookmark_page = [''2'', ''1'']
   \<and> map fi_in_read_later bookmark_page = [False, True]
   \<and> (\<exists>it \<in> set (items bookmark_store).
         hd bookmark_page = transformItem (include_joined bookmark_store ''u1'' True it)
         \<and> (\<exists>ui \<in> set (user_items it).
               ui_user_id ui = ''u1''
               \<and> (in_read_later ui \<or> (\<exists>bf \<in> set (bookmark_folders ui). bf_user_id bf = ''u1'')))
         \<and> (\<forall>ui \<in> set (user_items it). ui_user_id ui = ''u1''))"
proof -
  have t: "i_type (request 10 Latest Type_bookmarks None) = Type_bookmarks"
    by (simp add: request_def)
  have ids: "map fi_id bookmark_page = [''2'', ''1'']"
    and later: "map fi_in_read_later bookmark_page = [False, True]"
    unfolding bookmark_page_def by code_simp+
  from ids have "bookmark_page \<noteq> []" by auto
  then have "hd bookmark_page \<in> set bookmark_page" by simp
  then have "hd bookmark_page \<in> set (transformedItems (getUnreadItemsQuery keepAll noFolders 0
      ''u1'' bookmark_store (request 10 Latest Type_bookmarks None)))"
    by (simp add: bookmark_page_def)
  from bookmarks_own_state [OF t this] ids later show ?thesis
    by blast
qed

text \<open>
  C10. In the bookmarks view an item that has a state row of another user is not
  returned, whatever the requesting user's own row says (ids are the table's key).
\<close>

theorem bookmarks_foreign_state_excluded:
  assumes "i_type inp = Type_bookmarks"
    and "distinct (map item_id (items db))"
    and "it \<in> set (items db)"
    and "ui \<in> set (user_items it)" and "ui_user_id ui \<noteq> uid"
  shows "item_id it \<notin> fi_id ` set (transformedItems (getUnreadItemsQuery rd gf t uid db inp))"
proof
  assume "item_id it \<in> fi_id ` set (transformedItems (getUnreadItemsQuery rd gf t uid db inp))"
  then obtain j where j: "j \<in> set (findMany db uid (whereBookmarks uid) (sharedQuery inp))"
    and same: "item_id (j_item j) = item_id it"
    using assms(1) by (auto simp: bookmarks_page transformItems_def transformItem_id)
  from findMany_rows [OF j] obtain it' where it': "it' \<in> set (items db)"
    and wh: "whereBookmarks uid it'" and jj: "j_item j = it'"
    by (auto simp: include_joined_item)
  from same jj have "item_id it' = item_id it" by simp
  with assms(2,3) it' have "it' = it"
    by (meson distinct_map inj_on_def)
  with wh have "list_all (\<lambda>ui. ui_user_id ui = uid) (user_items it)"
    by (simp add: whereBookmarks_def)
  with assms(4,5) show False by (simp add: list_all_iff)
qed

theorem bookmarks_foreign_state_excluded_witness:
  "distinct (map item_id (items bookmark_store))
   \<and> map (\<lambda>ui. (ui_user_id ui, in_read_later ui)) (user_items (items bookmark_store ! 2))
       = [(''u1'', True), (''u2'', False)]
   \<and> item_id (items bookmark_store ! 2) \<notin> fi_id ` set bookmark_page"
proof -
  have t: "i_type (request 10 Latest Type_bookmarks None) = Type_bookmarks"
    by (simp add: request_def)
  have d: "distinct (map item_id (items bookmark_store))"
    by (simp add: store_defs)
  have m: "items bookmark_store ! 2 \<in> set (items bookmark_store)"
    by (simp add: store_defs)
  have rows: "map (\<lambda>ui. (ui_user_id ui, in_read_later ui)) (user_items (items bookmark_store ! 2))
       = [(''u1'', True), (''u2'', False)]"
    by (simp add: store_defs)
  have u: "state_row ''u2'' False False None [] \<in> set (user_items (items bookmark_store ! 2))"
    by (simp add: store_defs)
  have f: "ui_user_id (state_row ''u2'' False False None []) \<noteq> ''u1''"
    by (simp add: store_defs)
  from bookmarks_foreign_state_excluded [OF t d m u f, of keepAll noFolders 0] d rows
  show ?thesis by (simp add: bookmark_page_def)
qed

section \<open>The recently-read view\<close>

lemma orderRows_desc: "sorted_wrt byIdDesc (orderRows (Some desc) rows)"
proof -
  have "sorted (map item_id (sort_key item_id rows))" by simp
  then have "sorted_wrt (\<lambda>a b. item_id a \<le> item_id b) (sort_key item_id rows)"
    by (simp add: sorted_map)
  then show ?thesis
    by (simp add: orderRows_def sorted_wrt_rev byIdDesc_def)
qed

lemma page_sorted_wrt:
  "sorted_wrt R rows \<Longrightarrow> sorted_wrt R (take n (drop k (filter wh (fromCursor c rows))))"
  by (simp add: fromCursor_def sorted_wrt_filter split: option.splits)

lemma findMany_desc:
  assumes "q_orderBy q = Some desc"
  shows "sorted_wrt byIdDesc (map j_item (findMany db uid wh q))"
proof -
  let ?ordered = "orderRows (Some desc) (items db)"
  have items: "map (j_item \<circ> include_joined db uid b) xs = xs" for b xs
    by (simp add: include_joined_item comp_def)
  show ?thesis
  proof (cases "q_take q < 0")
    case False
    with assms have "map j_item (findMany db uid wh q) =
        take (nat \<bar>q_take q\<bar>) (drop (q_skip q) (filter wh (fromCursor (q_cursor q) ?ordered)))"
      by (simp add: findMany_def Let_def items)
    then show ?thesis
      by (simp only: page_sorted_wrt [OF orderRows_desc])
  next
    case True
    with assms have eq: "map j_item (findMany db uid wh q) =
        rev (take (nat \<bar>q_take q\<bar>) (drop (q_skip q) (filter wh (fromCursor (q_cursor q) (rev ?ordered)))))"
      by (simp add: findMany_def Let_def items)
    have "sorted_wrt (\<lambda>a b. byIdDesc b a) (rev ?ordered)"
      using orderRows_desc [of "items db"] by (simp add: sorted_wrt_rev)
    then have "sorted_wrt (\<lambda>a b. byIdDesc b a)
        (take (nat \<bar>q_take q\<bar>) (drop (q_skip q) (filter wh (fromCursor (q_cursor q) (rev ?ordered)))))"
      by (rule page_sorted_wrt)
    then show ?thesis
      by (simp only: eq sorted_wrt_rev)
  qed
qed

lemma readTimeNumber_transformItem:
  "first_user_item j \<noteq> None \<Longrightarrow> readTimeNumber j = Some (readTime (transformItem j))"
  by (auto simp: readTimeNumber_def readTime_def transformItem_def split: option.splits)

lemma insertBy_insort_key:
  assumes "\<And>a b. a \<in> set (x # ys) \<Longrightarrow> b \<in> set (x # ys) \<Longrightarrow> (0 < cmp a b) = (k b < k a)"
  shows "insertBy cmp x ys = insort_key k x ys"
  using assms by (induction ys) (auto simp: not_le [symmetric] simp del: not_le)

lemma array_sort_sort_key:
  assumes "\<And>a b. a \<in> set xs \<Longrightarrow> b \<in> set xs \<Longrightarrow> (0 < cmp a b) = (k b < (k a :: int))"
  shows "array_sort cmp xs = sort_key k xs"
  using assms
proof (induction xs)
  case Nil
  then show ?case by (simp add: array_sort_def)
next
  case (Cons x xs)
  then have IH: "array_sort cmp xs = sort_key k xs" by simp
  have "insertBy cmp x (sort_key k xs) = insort_key k x (sort_key k xs)"
    by (rule insertBy_insort_key) (use Cons.prems in auto)
  with IH show ?case by (simp add: array_sort_def sort_key_def)
qed


lemma sorted_wrt_subseq:
  "subseq xs ys \<Longrightarrow> sorted_wrt R ys \<Longrightarrow> sorted_wrt R xs"
proof (induction rule: list_emb.induct)
  case (list_emb_Cons2 x y xs ys)
  then show ?case
    using list_emb_set [of "(=)" xs ys] by fastforce
qed simp_all

lemma recentlyread_first_row:
  assumes "j \<in> set (findMany db uid (whereRecentlyread t uid) q)" and "q_include_user_items q"
  shows "first_user_item j \<noteq> None"
proof -
  from findMany_rows [OF assms(1)] assms(2) obtain it where
    wh: "whereRecentlyread t uid it" and j: "j = include_joined db uid True it"
    by auto
  from wh have "user_items it \<noteq> []"
    by (auto simp: whereRecentlyread_def)
  with j show ?thesis
    by (cases "user_items it") (simp_all add: first_user_item_def include_joined_def)
qed

lemma array_sort_Oldest:
  assumes "\<And>j. j \<in> set js \<Longrightarrow> first_user_item j \<noteq> None"
  shows "array_sort compareOldest js = sort_key (\<lambda>j. readTime (transformItem j)) js"
  by (rule array_sort_sort_key)
    (auto simp: compareOldest_def minus_Number_def readTimeNumber_transformItem dest!: assms)

lemma array_sort_Latest:
  assumes "\<And>j. j \<in> set js \<Longrightarrow> first_user_item j \<noteq> None"
  shows "array_sort compareLatest js = sort_key (\<lambda>j. - readTime (transformItem j)) js"
  by (rule array_sort_sort_key)
    (auto simp: compareLatest_def minus_Number_def readTimeNumber_transformItem dest!: assms)

lemma sorted_wrt_Oldest:
  "sorted_wrt (\<lambda>a b. readTime a \<le> readTime b)
     (transformItems (sort_key (\<lambda>j. readTime (transformItem j)) js))"
proof -
  have "sorted (map (\<lambda>j. readTime (transformItem j)) (sort_key (\<lambda>j. readTime (transformItem j)) js))"
    by (rule sorted_sort_key)
  then show ?thesis
    by (simp add: transformItems_def sorted_map sorted_wrt_map)
qed

lemma sorted_wrt_Latest:
  "sorted_wrt (\<lambda>a b. readTime b \<le> readTime a)
     (transformItems (sort_key (\<lambda>j. - readTime (transformItem j)) js))"
proof -
  have "sorted (map (\<lambda>j. - readTime (transformItem j)) (sort_key (\<lambda>j. - readTime (transformItem j)) js))"
    by (rule sorted_sort_key)
  then show ?thesis
    by (simp add: transformItems_def sorted_map sorted_wrt_map)
qed

lemma sortRecentlyRead_mset:
  "mset (sortRecentlyRead s js) = mset js"
proof -
  have "mset (array_sort cmp xs) = mset xs" for cmp :: "joined \<Rightarrow> joined \<Rightarrow> int" and xs
  proof (induction xs)
    case (Cons x xs)
    have ins: "mset (insertBy cmp x ys) = add_mset x (mset ys)" for ys
      by (induction ys) auto
    from Cons show ?case by (simp add: array_sort_def ins)
  qed (simp add: array_sort_def)
  then show ?thesis by (simp add: sortRecentlyRead_def Let_def)
qed

lemma recentlyread_response:
  "i_type inp = Type_recentlyread \<Longrightarrow>
   transformedItems (getUnreadItemsQuery rd gf t uid db inp) =
     rd (transformItems (sortRecentlyRead (i_sort inp)
           (findMany db uid (whereRecentlyread t uid) (sharedQuery inp)))) uid db False"
  by (simp add: getUnreadItemsQuery_def Let_def)

lemma inReadOrder_subseq: "subseq xs ys \<Longrightarrow> inReadOrder s ys \<Longrightarrow> inReadOrder s xs"
  by (auto simp: inReadOrder_def intro: sorted_wrt_subseq split: if_splits)

text \<open>
  C4. A recentlyread request fetches in descending id order whatever the requested sort.
  The page handed to the suppressor is a permutation of the projected fetch, sorted by
  read time: descending for Latest, ascending for Oldest. A suppressor that only removes
  items returns a page in that order.
\<close>

theorem recentlyread_fetch_and_resort:
  assumes "i_type inp = Type_recentlyread"
  shows "q_orderBy (sharedQuery inp) = Some desc
    \<and> sorted_wrt byIdDesc (map j_item (findMany db uid (whereRecentlyread t uid) (sharedQuery inp)))
    \<and> (\<exists>page.
          transformedItems (getUnreadItemsQuery rd gf t uid db inp) = rd page uid db False
          \<and> mset page = mset (transformItems (findMany db uid (whereRecentlyread t uid) (sharedQuery inp)))
          \<and> inReadOrder (i_sort inp) page
          \<and> (subseq (rd page uid db False) page \<longrightarrow>
               inReadOrder (i_sort inp) (transformedItems (getUnreadItemsQuery rd gf t uid db inp))))"
proof -
  let ?found = "findMany db uid (whereRecentlyread t uid) (sharedQuery inp)"
  let ?page = "transformItems (sortRecentlyRead (i_sort inp) ?found)"
  from assms have order: "q_orderBy (sharedQuery inp) = Some desc"
    and incl: "q_include_user_items (sharedQuery inp)"
    by (simp_all add: sharedQuery_def)
  have rows: "\<And>j. j \<in> set ?found \<Longrightarrow> first_user_item j \<noteq> None"
    using incl by (rule recentlyread_first_row [rotated])
  have latest: "sorted_wrt (\<lambda>a b. readTime b \<le> readTime a) ?page" if "i_sort inp = Latest"
    using that array_sort_Latest [OF rows] sorted_wrt_Latest [of ?found]
    by (simp add: sortRecentlyRead_def)
  have oldest: "sorted_wrt (\<lambda>a b. readTime a \<le> readTime b) ?page" if "i_sort inp = Oldest"
    using that array_sort_Oldest [OF rows] sorted_wrt_Oldest [of ?found]
    by (simp add: sortRecentlyRead_def)
  from latest oldest have ordered: "inReadOrder (i_sort inp) ?page"
    by (simp add: inReadOrder_def)
  have perm: "mset ?page = mset (transformItems ?found)"
    by (simp add: transformItems_def sortRecentlyRead_mset)
  have result: "transformedItems (getUnreadItemsQuery rd gf t uid db inp) = rd ?page uid db False"
    using assms by (rule recentlyread_response)
  have after: "subseq (rd ?page uid db False) ?page \<longrightarrow>
      inReadOrder (i_sort inp) (transformedItems (getUnreadItemsQuery rd gf t uid db inp))"
    using ordered result by (auto simp only: intro: inReadOrder_subseq)
  from order findMany_desc [OF order] result perm ordered after show ?thesis
    by blast
qed

theorem recentlyread_fetch_and_resort_witness:
  "map (\<lambda>j. item_id (j_item j))
     (findMany scenario_store ''u1'' (whereRecentlyread 0 ''u1'')
        (sharedQuery (request 2 Oldest Type_recentlyread None))) = [''2'', ''1'']
   \<and> map (\<lambda>fi. (fi_title fi, fi_marked_read_time fi))
       (transformedItems (getUnreadItemsQuery keepAll noFolders 0 ''u1'' scenario_store
          (request 2 Oldest Type_recentlyread None))) = [(''E'', Some 1), (''D'', Some 3)]
   \<and> inReadOrder Oldest
       (transformedItems (getUnreadItemsQuery keepAll noFolders 0 ''u1'' scenario_store
          (request 2 Oldest Type_recentlyread None)))"
proof -
  have t: "i_type (request 2 Oldest Type_recentlyread None) = Type_recentlyread"
    and s: "i_sort (request 2 Oldest Type_recentlyread None) = Oldest"
    by (simp_all add: request_def)
  have fetched: "map (\<lambda>j. item_id (j_item j))
     (findMany scenario_store ''u1'' (whereRecentlyread 0 ''u1'')
        (sharedQuery (request 2 Oldest Type_recentlyread None))) = [''2'', ''1'']"
    by code_simp
  have returned: "map (\<lambda>fi. (fi_title fi, fi_marked_read_time fi))
       (transformedItems (getUnreadItemsQuery keepAll noFolders 0 ''u1'' scenario_store
          (request 2 Oldest Type_recentlyread None))) = [(''E'', Some 1), (''D'', Some 3)]"
    by code_simp
  from recentlyread_fetch_and_resort [OF t, where db = scenario_store and uid = "''u1''"
      and t = 0 and rd = keepAll and gf = noFolders]
  have "inReadOrder Oldest
       (transformedItems (getUnreadItemsQuery keepAll noFolders 0 ''u1'' scenario_store
          (request 2 Oldest Type_recentlyread None)))"
    by (auto simp: s keepAll_def)
  with fetched returned show ?thesis by simp
qed

section \<open>The all view\<close>

lemma find_filter_Cons: "filter P xs = u # us \<Longrightarrow> find P xs = Some u"
  by (induction xs) (auto split: if_splits)

lemma afterPaginationStart_include:
  assumes "afterPaginationStart (include_joined db uid b it)"
  shows "\<exists>fd sub. feed_of db it = Some fd
           \<and> find (\<lambda>u. uf_user_id u = uid) (users fd) = Some sub
           \<and> pagination_start_timestamp sub \<le> created_at it"
proof -
  from assms obtain fd where fd: "feed_of db it = Some fd"
    by (auto simp: afterPaginationStart_def include_joined_def split: option.splits)
  with assms obtain sub rest where
    sub: "filter (\<lambda>u. uf_user_id u = uid) (users fd) = sub # rest"
    and le: "pagination_start_timestamp sub \<le> created_at it"
    by (auto simp: afterPaginationStart_def include_joined_def split: list.splits)
  from find_filter_Cons [OF sub] fd le show ?thesis by blast
qed

lemma all_response:
  "i_type inp = Type_all \<Longrightarrow>
   transformedItems (getUnreadItemsQuery rd gf t uid db inp) =
     rd (transformItems (filter afterPaginationStart
           (findMany db uid (whereAll db t uid) (sharedQuery inp)))) uid db True"
  by (simp add: getUnreadItemsQuery_def Let_def)

text \<open>
  C6. In the all view, with a suppressor that only removes items, every returned item is
  the projection of a stored item whose feed has a subscription row of the requesting
  user, and the item's creation time is at or after the pagination_start_timestamp of
  the first such row; the fetched items that fail this are dropped after the fetch.
\<close>

theorem all_view_subscription_window:
  assumes "i_type inp = Type_all"
    and "\<And>page. set (rd page uid db True) \<subseteq> set page"
    and "fi \<in> set (transformedItems (getUnreadItemsQuery rd gf t uid db inp))"
  shows "\<exists>it \<in> set (items db). \<exists>fd sub.
           fi = transformItem (include_joined db uid False it)
           \<and> fi_created_at fi = created_at it
           \<and> feed_of db it = Some fd
           \<and> find (\<lambda>u. uf_user_id u = uid) (users fd) = Some sub
           \<and> pagination_start_timestamp sub \<le> fi_created_at fi"
proof -
  let ?found = "findMany db uid (whereAll db t uid) (sharedQuery inp)"
  from assms have "fi \<in> set (transformItems (filter afterPaginationStart ?found))"
    by (auto simp: all_response)
  then obtain j where j: "j \<in> set ?found" and after: "afterPaginationStart j"
    and fi: "fi = transformItem j"
    by (auto simp: transformItems_def)
  from assms(1) have "q_include_user_items (sharedQuery inp) = False"
    by (simp add: sharedQuery_def)
  with findMany_rows [OF j] obtain it where it: "it \<in> set (items db)"
    and jj: "j = include_joined db uid False it"
    by auto
  from fi jj have created: "fi_created_at fi = created_at it"
    by (simp add: transformItem_def include_joined_def)
  from after jj afterPaginationStart_include [of db uid False it]
  obtain fd sub where "feed_of db it = Some fd"
    and "find (\<lambda>u. uf_user_id u = uid) (users fd) = Some sub"
    and "pagination_start_timestamp sub \<le> created_at it"
    by blast
  with it fi jj created show ?thesis by auto
qed

theorem all_view_subscription_window_witness:
  "map (\<lambda>j. (item_id (j_item j), created_at (j_item j)))
     (findMany window_store ''u1'' (whereAll window_store 0 ''u1'')
        (sharedQuery (request 2 Latest Type_all None))) = [(''4'', 50), (''3'', 200)]
   \<and> map (\<lambda>fi. (fi_id fi, fi_created_at fi)) window_page = [(''3'', 200)]
   \<and> (\<exists>it \<in> set (items window_store). \<exists>fd sub.
           hd window_page = transformItem (include_joined window_store ''u1'' False it)
           \<and> fi_created_at (hd window_page) = created_at it
           \<and> feed_of window_store it = Some fd
           \<and> find (\<lambda>u. uf_user_id u = ''u1'') (users fd) = Some sub
           \<and> pagination_start_timestamp sub \<le> fi_created_at (hd window_page))"
proof -
  have t: "i_type (request 2 Latest Type_all None) = Type_all"
    by (simp add: request_def)
  have keep: "\<And>page. set (keepAll page ''u1'' window_store True) \<subseteq> set page"
    by (simp add: keepAll_def)
  have fetched: "map (\<lambda>j. (item_id (j_item j), created_at (j_item j)))
     (findMany window_store ''u1'' (whereAll window_store 0 ''u1'')
        (sharedQuery (request 2 Latest Type_all None))) = [(''4'', 50), (''3'', 200)]"
    by code_simp
  have page: "map (\<lambda>fi. (fi_id fi, fi_created_at fi)) window_page = [(''3'', 200)]"
    unfolding window_page_def by code_simp
  then have "window_page \<noteq> []" by auto
  then have "hd window_page \<in> set (transformedItems (getUnreadItemsQuery keepAll noFolders 0
      ''u1'' window_store (request 2 Latest Type_all None)))"
    by (simp add: window_page_def)
  from all_view_subscription_window [OF t keep this] fetched page show ?thesis
    by blast
qed

section \<open>Which views are suppressed\<close>

text \<open>
  C3 as amended. The suppressor runs on the projected page of the views all, one,
  multiple, discover and recentlyread (with the flag true for all, one and multiple);
  the pages of bookmarks and newsletters are returned as projected, whatever the
  suppressor. The cursor never depends on the suppressor.
\<close>

theorem suppression_by_view:
  "transformedItems (getUnreadItemsQuery rd gf t uid db inp) =
     (if i_type inp = Type_bookmarks \<or> i_type inp = Type_newsletters
      then transformedItems (getUnreadItemsQuery keepAll gf t uid db inp)
      else rd (transformedItems (getUnreadItemsQuery keepAll gf t uid db inp)) uid db
             (i_type inp = Type_all \<or> i_type inp = Type_one \<or> i_type inp = Type_multiple))
   \<and> nextCursor (getUnreadItemsQuery rd gf t uid db inp) =
       nextCursor (getUnreadItemsQuery keepAll gf t uid db inp)"
  by (cases "i_type inp") (simp_all add: getUnreadItemsQuery_def keepAll_def Let_def)

theorem suppression_by_view_witness:
  "map fi_id (transformedItems (getUnreadItemsQuery suppressByTitle noFolders 0 ''u1''
      bookmark_store (request 10 Oldest Type_all None))) = [''1'', ''3'', ''4'', ''5'']
   \<and> map fi_id (transformedItems (getUnreadItemsQuery keepAll noFolders 0 ''u1''
      bookmark_store (request 10 Oldest Type_all None))) = [''1'', ''2'', ''3'', ''4'', ''5'']"
proof -
  have kept: "map fi_id (transformedItems (getUnreadItemsQuery keepAll noFolders 0 ''u1''
      bookmark_store (request 10 Oldest Type_all None))) = [''1'', ''2'', ''3'', ''4'', ''5'']"
    by code_simp
  have "map fi_id (suppressByTitle (transformedItems (getUnreadItemsQuery keepAll noFolders 0 ''u1''
      bookmark_store (request 10 Oldest Type_all None))) ''u1'' bookmark_store True)
      = [''1'', ''3'', ''4'', ''5'']"
    by code_simp
  with kept suppression_by_view [of suppressByTitle noFolders 0 "''u1''" bookmark_store
      "request 10 Oldest Type_all None"]
  show ?thesis by (simp add: request_def)
qed

text \<open>
  C3 as stated fails for bookmarks: with the suppressor that keeps one item a title, the
  bookmarks page still holds both items titled Same, while the suppressed page holds one.
\<close>

theorem bookmarks_not_suppressed:
  "map (\<lambda>fi. (fi_id fi, fi_title fi))
     (transformedItems (getUnreadItemsQuery suppressByTitle noFolders 0 ''u1'' bookmark_store
        (request 10 Latest Type_bookmarks None))) = [(''2'', ''Same''), (''1'', ''Same'')]
   \<and> map (\<lambda>fi. (fi_id fi, fi_title fi))
       (suppressByTitle
          (transformItems (findMany bookmark_store ''u1'' (whereBookmarks ''u1'')
             (sharedQuery (request 10 Latest Type_bookmarks None))))
          ''u1'' bookmark_store False) = [(''2'', ''Same'')]"
  by code_simp

section \<open>The cursor after an in-memory step\<close>

text \<open>
  C1. The claim asks that the cursor of a recentlyread page anchor the fetch order. The
  handler takes it from the page after the re-sort. Here the fetch, in descending id
  order, is 3, 2; sorted by read time for Latest the page is 2, 3 and the cursor is 3,
  not 2. Paging on from cursor 3 returns item 2 a second time.
\<close>

theorem recentlyread_cursor_follows_resort:
  "map (\<lambda>j. item_id (j_item j))
     (findMany read_store ''u1'' (whereRecentlyread 0 ''u1'')
        (sharedQuery (request 2 Latest Type_recentlyread None))) = [''3'', ''2'']
   \<and> map fi_id (transformedItems (getUnreadItemsQuery keepAll noFolders 0 ''u1'' read_store
        (request 2 Latest Type_recentlyread None))) = [''2'', ''3'']
   \<and> nextCursor (getUnreadItemsQuery keepAll noFolders 0 ''u1'' read_store
        (request 2 Latest Type_recentlyread None)) = Some ''3''
   \<and> map (\<lambda>r. (map fi_id (transformedItems r), nextCursor r))
       (pages 5 keepAll noFolders 0 ''u1'' read_store (request 2 Latest Type_recentlyread None))
       = [([''2'', ''3''], Some ''3''), ([''2'', ''1''], Some ''1''), ([], None)]"
  by code_simp

text \<open>
  C2. The claim asks that paging through the all view visit every qualifying item once.
  The handler takes the cursor from the page after the subscription-window filter. Here
  items 1, 2 and 3 qualify; the first fetch of two items is 4, 3, the filter drops item
  4, the page of one item is shorter than the amount and carries no cursor, and paging
  ends without items 2 and 1.
\<close>

theorem all_view_paging_stops_early:
  "map item_id
     (filter (\<lambda>it. whereAll window_store 0 ''u1'' it
                   \<and> afterPaginationStart (include_joined window_store ''u1'' False it))
        (items window_store)) = [''1'', ''2'', ''3'']
   \<and> map (\<lambda>j. item_id (j_item j))
       (findMany window_store ''u1'' (whereAll window_store 0 ''u1'')
          (sharedQuery (request 2 Latest Type_all None))) = [''4'', ''3'']
   \<and> map (\<lambda>r. (map fi_id (transformedItems r), nextCursor r))
       (pages 5 keepAll noFolders 0 ''u1'' window_store (request 2 Latest Type_all None))
       = [([''3''], None)]"
  by code_simp

section \<open>Requests of type one or discover without a feed_id\<close>










section \<open>searchMultipleItems\<close>

lemma like_percent: "like [CHR ''%''] s"
  by (induction s) simp_all

lemma like_plain_prefix: "plainQuery p \<Longrightarrow> like (p @ [CHR ''%'']) s = prefix p s"
proof (induction p arbitrary: s)
  case Nil
  then show ?case by (simp add: like_percent)
next
  case (Cons c p)
  then have "plainQuery p" and "c \<noteq> CHR ''%''" and "c \<noteq> CHR ''_''" and "c \<noteq> CHR 0x5C"
    by (simp_all add: plainQuery_def)
  with Cons.IH show ?case
    by (cases s) auto
qed

lemma like_plain_sublist:
  "plainQuery q \<Longrightarrow> like (CHR ''%'' # q @ [CHR ''%'']) s = sublist q s"
proof (induction s)
  case Nil
  then show ?case
    using like_plain_prefix [of q "[]"] by simp
next
  case (Cons c s)
  then show ?case
    using like_plain_prefix [of q "c # s"] by (simp add: sublist_Cons_right)
qed

lemma of_char_toLower:
  "(of_char (toLower c) :: nat) =
     (if 65 \<le> (of_char c :: nat) \<and> (of_char c :: nat) \<le> 90 then of_char c + 32 else of_char c)"
  by (simp add: toLower_def less_eq_char_def)

lemma toLower_pattern_char:
  "toLower c = CHR ''%'' \<longleftrightarrow> c = CHR ''%''"
  "toLower c = CHR ''_'' \<longleftrightarrow> c = CHR ''_''"
  "toLower c = CHR 0x5C \<longleftrightarrow> c = CHR 0x5C"
proof -
  have eq: "(a = b) = ((of_char a :: nat) = of_char b)" for a b :: char
    by simp
  show "toLower c = CHR ''%'' \<longleftrightarrow> c = CHR ''%''"
    unfolding eq [of "toLower c"] eq [of c] of_char_toLower by (simp split: if_splits)
  show "toLower c = CHR ''_'' \<longleftrightarrow> c = CHR ''_''"
    unfolding eq [of "toLower c"] eq [of c] of_char_toLower by (simp split: if_splits)
  show "toLower c = CHR 0x5C \<longleftrightarrow> c = CHR 0x5C"
    unfolding eq [of "toLower c"] eq [of c] of_char_toLower by (simp split: if_splits)
qed

lemma plainQuery_toLower: "plainQuery q \<Longrightarrow> plainQuery (map toLower q)"
  by (induction q) (simp_all add: plainQuery_def toLower_pattern_char)

lemma toLower_percent: "toLower (CHR ''%'') = CHR ''%''"
  by (simp add: toLower_pattern_char)

text \<open>A query with no pattern character is matched as a substring, case ignored.\<close>

lemma containsInsensitive_plain:
  "plainQuery q \<Longrightarrow>
   containsInsensitive (Some q) (Some s) = sublist (map toLower q) (map toLower s)"
  by (simp add: containsInsensitive_def toLower_percent like_plain_sublist plainQuery_toLower)


lemma takeInt_Whole: "takeInt (Whole k) = Inr n \<Longrightarrow> n = k"
  by (simp add: takeInt_def split: if_splits)

lemma findMany_plain:
  "findMany db uid wh
     \<lparr> q_take = n, q_skip = 0, q_cursor = None, q_orderBy = None, q_include_user_items = False \<rparr>
   = map (include_joined db uid False) (plainRows n wh (sort_key item_id (items db)))"
  by (simp add: findMany_def orderRows_def fromCursor_def plainRows_def)

lemma set_plainRows: "it \<in> set (plainRows n wh rows) \<Longrightarrow> it \<in> set rows \<and> wh it"
  by (auto simp: plainRows_def split: if_splits dest!: in_set_takeD)

lemma toMarkdown_subscribed:
  assumes "\<And>it. it \<in> set rows \<Longrightarrow> feed_of db it \<noteq> None"
  shows "toMarkdown translate (map (include_joined db uid b) rows) = Inr (map (toResult translate db) rows)"
  using assms
proof (induction rows)
  case Nil
  then show ?case by simp
next
  case (Cons it rows)
  then obtain fd where "feed_of db it = Some fd" by auto
  with Cons show ?case
    by (simp add: include_joined_def toResult_def)
qed

lemma whereSearch_feed: "whereSearch db uid inp it \<Longrightarrow> feed_of db it \<noteq> None"
  by (auto simp: whereSearch_def feedUsersSome_def split: option.splits)

text \<open>
  The search answers every request whose take the store accepts, with the rows its
  where clause admits, in the order of their ids.
\<close>

lemma searchMultipleItems_rows:
  assumes "takeInt (Whole (s_take inp)) = Inr n"
  shows "searchMultipleItems translate uid db inp =
     Inr (map (toResult translate db)
            (plainRows n (whereSearch db uid inp) (sort_key item_id (items db))))"
proof -
  have "toMarkdown translate
      (map (include_joined db uid False)
         (plainRows n (whereSearch db uid inp) (sort_key item_id (items db))))
    = Inr (map (toResult translate db)
         (plainRows n (whereSearch db uid inp) (sort_key item_id (items db))))"
    by (rule toMarkdown_subscribed) (auto dest!: set_plainRows whereSearch_feed)
  with assms show ?thesis
    by (simp add: searchMultipleItems_def findMany_plain)
qed

lemma searchMultipleItems_rejected:
  "takeInt (Whole (s_take inp)) = Inl e \<Longrightarrow> searchMultipleItems translate uid db inp = Inl e"
  by (simp add: searchMultipleItems_def)

text \<open>
  C9 as amended. With plan pro and a query, every returned item comes from a stored item
  whose title matches the pattern made of the query and whose body is present and matches
  it too, case ignored: the two filters are conjoined, and a match in the body alone does
  not return the item. For a query with no pattern character the match is that the query
  is a substring.
\<close>

theorem pro_search_needs_title_and_content:
  assumes "s_plan inp = pro" and "s_query inp = Some q"
    and "searchMultipleItems translate uid db inp = Inr rs" and "r \<in> set rs"
  shows "\<exists>it \<in> set (items db). \<exists>c.
           r = toResult translate db it
           \<and> containsInsensitive (Some q) (Some (title it))
           \<and> website_content it = Some c
           \<and> containsInsensitive (Some q) (Some c)
           \<and> (plainQuery q \<longrightarrow>
                sublist (map toLower q) (map toLower (title it))
                \<and> sublist (map toLower q) (map toLower c))"
proof -
  from assms(3) obtain n where n: "takeInt (Whole (s_take inp)) = Inr n"
    by (cases "takeInt (Whole (s_take inp))") (simp_all add: searchMultipleItems_rejected)
  from assms(3,4) obtain it where
    it: "it \<in> set (plainRows n (whereSearch db uid inp) (sort_key item_id (items db)))"
    and r: "r = toResult translate db it"
    by (auto simp: searchMultipleItems_rows [OF n])
  from set_plainRows [OF it] have mem: "it \<in> set (items db)" and wh: "whereSearch db uid inp it"
    by simp_all
  from wh assms(1,2) have head: "containsInsensitive (Some q) (Some (title it))"
    and body: "containsInsensitive (Some q) (website_content it)"
    by (auto simp: whereSearch_def)
  from body obtain c where c: "website_content it = Some c"
    by (cases "website_content it") (simp_all add: containsInsensitive_def)
  with body have body': "containsInsensitive (Some q) (Some c)" by simp
  from head body' have "plainQuery q \<longrightarrow>
      sublist (map toLower q) (map toLower (title it))
      \<and> sublist (map toLower q) (map toLower c)"
    using containsInsensitive_plain [of q "title it"] containsInsensitive_plain [of q c]
    by blast
  with mem r head c body' show ?thesis by blast
qed

theorem pro_search_needs_title_and_content_witness:
  "searchMultipleItems id ''u1'' library_store (search_request (Some ''rust'') pro 10)
     = Inr [toResult id library_store (items library_store ! 1)]
   \<and> item_id (items library_store ! 0) = ''2''
   \<and> containsInsensitive (Some ''rust'') (website_content (items library_store ! 0))
   \<and> \<not> containsInsensitive (Some ''rust'') (Some (title (items library_store ! 0)))
   \<and> plainQuery ''rust''
   \<and> (\<exists>it \<in> set (items library_store). \<exists>c.
         toResult id library_store (items library_store ! 1) = toResult id library_store it
         \<and> containsInsensitive (Some ''rust'') (Some (title it))
         \<and> website_content it = Some c
         \<and> containsInsensitive (Some ''rust'') (Some c)
         \<and> sublist (map toLower ''rust'') (map toLower (title it))
         \<and> sublist (map toLower ''rust'') (map toLower c))"
proof -
  have p: "s_plan (search_request (Some ''rust'') pro 10) = pro"
    and q: "s_query (search_request (Some ''rust'') pro 10) = Some ''rust''"
    by (simp_all add: search_request_def)
  have run: "searchMultipleItems id ''u1'' library_store (search_request (Some ''rust'') pro 10)
     = Inr [toResult id library_store (items library_store ! 1)]"
    by code_simp
  have second: "item_id (items library_store ! 0) = ''2''"
    by code_simp
  have body: "containsInsensitive (Some ''rust'') (website_content (items library_store ! 0))"
    by code_simp
  have head: "\<not> containsInsensitive (Some ''rust'') (Some (title (items library_store ! 0)))"
    by code_simp
  have plain: "plainQuery ''rust''"
    by (simp add: plainQuery_def)
  have mem: "toResult id library_store (items library_store ! 1)
      \<in> set [toResult id library_store (items library_store ! 1)]"
    by simp
  from pro_search_needs_title_and_content [OF p q run mem] plain run second body head
  show ?thesis by (simp only: simp_thms)
qed

text \<open>
  C9 as stated fails for a query with a pattern character: with plan pro the query \<open>%\<close>
  returns items 1 and 2, and \<open>%\<close> is a substring of neither title.
\<close>

theorem pro_search_pattern_query:
  "map_sum id (map (\<lambda>r. (item_id (s_item r), title (s_item r))))
     (searchMultipleItems id ''u1'' library_store (search_request (Some ''%'') pro 10))
     = Inr [(''1'', ''Rust News''), (''2'', ''Weekly'')]
   \<and> \<not> sublist (map toLower ''%'') (map toLower ''Rust News'')
   \<and> \<not> sublist (map toLower ''%'') (map toLower ''Weekly'')"
  by code_simp

lemma whereSearch_free:
  assumes "s_plan inp = free" and "feeds db1 = feeds db2"
  shows "whereSearch db1 uid inp it = whereSearch db2 uid inp (withoutContent it)"
  using assms
  by (simp add: whereSearch_def feedUsersSome_def feed_of_def withoutContent_def
      cong: option.case_cong)

lemma plainRows_map:
  assumes "\<And>x. wh x = wh' (f x)"
  shows "map f (plainRows n wh rows) = plainRows n wh' (map f rows)"
proof -
  have "filter wh' (map f xs) = map f (filter wh xs)" for xs
    using assms by (induction xs) auto
  then show ?thesis
    by (simp add: plainRows_def rev_map take_map)
qed

lemma sort_key_withoutContent:
  "map withoutContent (sort_key item_id rows) = sort_key item_id (map withoutContent rows)"
proof -
  have ins: "map withoutContent (insort_key item_id x xs)
      = insort_key item_id (withoutContent x) (map withoutContent xs)" for x xs
    by (induction xs) (simp_all add: withoutContent_def)
  show ?thesis
    by (induction rows) (simp_all add: ins)
qed

lemma toResult_withoutContent:
  assumes "feeds db1 = feeds db2"
  shows "(withoutContent (s_item (toResult translate db1 it)), feed_title (toResult translate db1 it))
       = (withoutContent it,
          case feed_of db2 (withoutContent it) of None \<Rightarrow> [] | Some fd \<Rightarrow> f_title fd)"
  using assms by (simp add: toResult_def withoutContent_def feed_of_def cong: option.case_cong)

text \<open>
  C8 as amended. With plan free, two stores that differ only in the bodies of their items
  give the same answer to the same query: the same error, or the same matched items,
  equal up to the body, with the same feed titles. When the store accepts the take, the
  matched items are the first rows by id, up to take, whose title matches the pattern
  made of the query, case ignored, and whose feed the user subscribes to. For a query
  with no pattern character the match is that the query is a substring.
\<close>

theorem free_search_ignores_content:
  assumes "s_plan inp = free" and "sameButContent db1 db2"
  shows "map_sum id (map (\<lambda>r. (withoutContent (s_item r), feed_title r)))
           (searchMultipleItems translate uid db1 inp)
         = map_sum id (map (\<lambda>r. (withoutContent (s_item r), feed_title r)))
           (searchMultipleItems translate uid db2 inp)
    \<and> (takeInt (Whole (s_take inp)) = Inr (s_take inp) \<longrightarrow>
         map_sum id (map (\<lambda>r. item_id (s_item r))) (searchMultipleItems translate uid db1 inp)
         = Inr (map item_id
                  (plainRows (s_take inp)
                     (\<lambda>it. containsInsensitive (s_query inp) (Some (title it))
                           \<and> feedUsersSome db1 uid it)
                     (sort_key item_id (items db1)))))
    \<and> (\<forall>q s. plainQuery q \<longrightarrow>
          containsInsensitive (Some q) (Some s) = sublist (map toLower q) (map toLower s))"
proof -
  from assms(2) have feeds: "feeds db1 = feeds db2"
    and rows: "map withoutContent (items db1) = map withoutContent (items db2)"
    by (simp_all add: sameButContent_def)
  let ?view = "\<lambda>r. (withoutContent (s_item r), feed_title r)"
  let ?g = "\<lambda>it. (it, case feed_of db2 it of None \<Rightarrow> [] | Some fd \<Rightarrow> f_title fd)"
  have same: "map_sum id (map ?view) (searchMultipleItems translate uid db1 inp)
         = map_sum id (map ?view) (searchMultipleItems translate uid db2 inp)"
  proof (cases "takeInt (Whole (s_take inp))")
    case (Inl e)
    then show ?thesis by (simp add: searchMultipleItems_rejected)
  next
    case (Inr n)
    let ?rows = "\<lambda>db. plainRows n (whereSearch db uid inp) (sort_key item_id (items db))"
    have view: "map ?view (map (toResult translate db) (?rows db)) = map ?g (map withoutContent (?rows db))"
      if "feeds db = feeds db2" for db
      using toResult_withoutContent [OF that] by (simp add: comp_def)
    have erased: "map withoutContent (?rows db)
        = plainRows n (whereSearch db2 uid inp) (sort_key item_id (map withoutContent (items db)))"
      if "feeds db = feeds db2" for db
      unfolding sort_key_withoutContent [symmetric]
      by (rule plainRows_map) (rule whereSearch_free [OF assms(1) that])
    have "map ?view (map (toResult translate db1) (?rows db1))
        = map ?view (map (toResult translate db2) (?rows db2))"
      by (simp only: view [OF feeds] view [OF refl] erased [OF feeds] erased [OF refl] rows)
    then show ?thesis
      by (simp add: searchMultipleItems_rows [OF Inr])
  qed
  have wh: "whereSearch db1 uid inp
      = (\<lambda>it. containsInsensitive (s_query inp) (Some (title it)) \<and> feedUsersSome db1 uid it)"
    using assms(1) by (auto simp: whereSearch_def)
  have ids: "item_id (s_item (toResult translate db1 x)) = item_id x" for x
    by (simp add: toResult_def)
  have members: "takeInt (Whole (s_take inp)) = Inr (s_take inp) \<longrightarrow>
         map_sum id (map (\<lambda>r. item_id (s_item r))) (searchMultipleItems translate uid db1 inp)
         = Inr (map item_id
                  (plainRows (s_take inp)
                     (\<lambda>it. containsInsensitive (s_query inp) (Some (title it))
                           \<and> feedUsersSome db1 uid it)
                     (sort_key item_id (items db1))))"
    by (auto simp: searchMultipleItems_rows ids wh [symmetric])
  from same members containsInsensitive_plain show ?thesis
    by blast
qed


theorem free_search_ignores_content_witness:
  "sameButContent library_store library_store_rewritten
   \<and> map website_content (items library_store) \<noteq> map website_content (items library_store_rewritten)
   \<and> map_sum id (map (\<lambda>r. item_id (s_item r)))
       (searchMultipleItems id ''u1'' library_store (search_request (Some ''rust'') free 10))
       = Inr [''1'', ''4'']
   \<and> map_sum id (map (\<lambda>r. item_id (s_item r)))
       (searchMultipleItems id ''u1'' library_store_rewritten (search_request (Some ''rust'') free 10))
       = Inr [''1'', ''4'']
   \<and> map item_id (items library_store) = [''2'', ''1'', ''4'', ''3'']
   \<and> map_sum id (map (\<lambda>r. item_id (s_item r)))
       (searchMultipleItems id ''u1'' library_store (search_request None free 1))
       = Inr [''1'']
   \<and> map_sum id (map (\<lambda>r. (withoutContent (s_item r), feed_title r)))
           (searchMultipleItems id ''u1'' library_store (search_request (Some ''rust'') free 10))
         = map_sum id (map (\<lambda>r. (withoutContent (s_item r), feed_title r)))
           (searchMultipleItems id ''u1'' library_store_rewritten (search_request (Some ''rust'') free 10))"
proof -
  have p: "s_plan (search_request (Some ''rust'') free 10) = free"
    by (simp add: search_request_def)
  have same: "sameButContent library_store library_store_rewritten"
    by (simp add: sameButContent_def withoutContent_def library_store_def
        library_store_rewritten_def item_row_def)
  have differ: "map website_content (items library_store)
      \<noteq> map website_content (items library_store_rewritten)"
    by (simp add: library_store_def library_store_rewritten_def item_row_def)
  have run: "map_sum id (map (\<lambda>r. item_id (s_item r)))
       (searchMultipleItems id ''u1'' library_store (search_request (Some ''rust'') free 10))
       = Inr [''1'', ''4'']"
    by code_simp
  have run': "map_sum id (map (\<lambda>r. item_id (s_item r)))
       (searchMultipleItems id ''u1'' library_store_rewritten (search_request (Some ''rust'') free 10))
       = Inr [''1'', ''4'']"
    by code_simp
  have stored: "map item_id (items library_store) = [''2'', ''1'', ''4'', ''3'']"
    by code_simp
  have first: "map_sum id (map (\<lambda>r. item_id (s_item r)))
       (searchMultipleItems id ''u1'' library_store (search_request None free 1))
       = Inr [''1'']"
    by code_simp
  note equal = free_search_ignores_content [OF p same, of id "''u1''", THEN conjunct1]
  from same differ run run' stored first equal
  show ?thesis by (simp only: simp_thms)
qed

text \<open>
  C8 as stated fails for a query with a pattern character: with plan free the query
  \<open>_\<close> returns items 1, 2 and 4, and \<open>_\<close> is a substring of none of their titles.
\<close>

theorem free_search_pattern_query:
  "map_sum id (map (\<lambda>r. (item_id (s_item r), title (s_item r))))
     (searchMultipleItems id ''u1'' library_store (search_request (Some ''_'') free 10))
     = Inr [(''1'', ''Rust News''), (''2'', ''Weekly''), (''4'', ''the RUST book'')]
   \<and> \<not> sublist (map toLower ''_'') (map toLower ''Rust News'')
   \<and> \<not> sublist (map toLower ''_'') (map toLower ''Weekly'')
   \<and> \<not> sublist (map toLower ''_'') (map toLower ''the RUST book'')"
  by code_simp

end
